theory Spec2Isabelle
  imports Main
begin

section \<open>Security-group facts: \<^verbatim>\<open>cloud/amazon/ec2_group_facts.py\<close>\<close>

subsection \<open>Objects returned by the inventory provider\<close>

text \<open>
  A boto grant object has the attributes \<^verbatim>\<open>group_id\<close> and \<^verbatim>\<open>cidr_ip\<close>, each of
  which may be \<^verbatim>\<open>None\<close>.
\<close>

record grant =
  group_id :: "string option"
  cidr_ip :: "string option"

text \<open>
  A permission entry of boto (\<^verbatim>\<open>rule\<close> in the source) and the dictionary
  \<^verbatim>\<open>permission\<close> that \<^verbatim>\<open>get_group_rules\<close> builds from it have the same four
  keys; they differ in what the \<^verbatim>\<open>grants\<close> list holds: grant objects in the
  provider's entry, plain strings in the dictionary. One record, with the type
  of the grants as its parameter, stands for both.
\<close>

record 'g permission =
  ip_protocol :: string
  from_port :: "string option"
  to_port :: "string option"
  grants :: "'g list"

type_synonym rule = "grant permission"

text \<open>
  The attribute \<^verbatim>\<open>id\<close> of an instance, a network interface and a database
  instance, and the attribute \<^verbatim>\<open>name\<close> of a load balancer, carry the class in
  their field name here, since the fields of all records share one name space.
\<close>

record ec2_instance =
  instance_id :: string

record loadbalancer =
  lb_name :: string
  security_groups :: "string list"

record network_interface =
  eni_id :: string

record membership =
  vpc_group :: string

record dbinstance =
  db_id :: string
  vpc_security_groups :: "membership list"

text \<open>The security group: \<^verbatim>\<open>group.id\<close> is \<open>sg_id\<close>, and so on.\<close>

record group =
  sg_id :: string
  sg_name :: string
  sg_description :: string
  sg_vpc_id :: "string option"
  sg_rules :: "rule list"
  sg_rules_egress :: "rule list"

text \<open>
  The dictionary \<^verbatim>\<open>group_info\<close>. Its entry \<^verbatim>\<open>resources\<close> is a dictionary of its
  own, filled key by key, and is a map here, so that the presence of a key is a
  property of the code and not of the type.
\<close>

record group_info =
  gi_id :: string
  gi_name :: string
  gi_description :: string
  gi_vpc_id :: "string option"
  gi_rules :: "string permission list"
  gi_rules_egress :: "string permission list"
  gi_resources :: "string \<rightharpoonup> string list"

text \<open>
  \<^verbatim>\<open>BotoServerError\<close>, with the three attributes the handlers read. The module
  formats \<^verbatim>\<open>error_code\<close> with \<^verbatim>\<open>%s\<close>, so the field holds its rendering as text.
\<close>

record boto_server_error =
  message :: string
  error_code :: string
  error_message :: string

subsection \<open>The provider and the requests sent to it\<close>

text \<open>
  Every call of the provider is recorded in a log, in the order of the calls.
  The provider's answer may depend on the requests made before (the inventory
  is fetched again at every call and may have changed), so each operation takes
  the log so far. A call either raises \<^verbatim>\<open>BotoServerError\<close> (\<open>Inl\<close>) or returns
  its list. Opening the connection (\<^verbatim>\<open>connect_to_aws\<close>) stands inside the same
  \<^verbatim>\<open>try\<close> block as the call and is part of it.
\<close>

type_synonym filters = "(string \<times> string) list option"

datatype request =
    Get_all_security_groups filters
  | Instances string
  | Get_all_load_balancers
  | Get_all_network_interfaces string
  | Get_all_dbinstances

type_synonym log = "request list"

record provider =
  get_all_security_groups :: "log \<Rightarrow> filters \<Rightarrow> boto_server_error + group list"
  instances :: "log \<Rightarrow> group \<Rightarrow> boto_server_error + ec2_instance list"
  get_all_load_balancers :: "log \<Rightarrow> boto_server_error + loadbalancer list"
  get_all_network_interfaces :: "log \<Rightarrow> string \<Rightarrow> boto_server_error + network_interface list"
  get_all_dbinstances :: "log \<Rightarrow> boto_server_error + dbinstance list"

text \<open>
  How a run of the module ends without output: \<^verbatim>\<open>module.fail_json(msg=...)\<close>,
  which exits the process with a structured error, or an exception that no
  handler catches.
\<close>

datatype abort = Fail_json string | Uncaught boto_server_error

type_synonym 'a run = "(abort + 'a) \<times> log"

text \<open>Sequencing: an abort ends the run, and what follows is not executed.\<close>

definition and_then :: "'a run \<Rightarrow> ('a \<Rightarrow> log \<Rightarrow> 'b run) \<Rightarrow> 'b run" where
  "and_then r k = (case r of (Inl a, l) \<Rightarrow> (Inl a, l) | (Inr x, l) \<Rightarrow> k x l)"

subsection \<open>\<^verbatim>\<open>get_rds_instances\<close>\<close>

text \<open>The inner loop over \<^verbatim>\<open>rds.vpc_security_groups\<close>, appending to \<^verbatim>\<open>rds_instances\<close>.\<close>

fun membership_loop :: "string \<Rightarrow> string \<Rightarrow> membership list \<Rightarrow> string list \<Rightarrow> string list" where
  "membership_loop gid rid [] rds_instances = rds_instances"
| "membership_loop gid rid (m # ms) rds_instances =
     membership_loop gid rid ms
       (if gid = vpc_group m then rds_instances @ [rid] else rds_instances)"

text \<open>The outer loop over \<^verbatim>\<open>all_rds\<close>.\<close>

fun rds_loop :: "string \<Rightarrow> dbinstance list \<Rightarrow> string list \<Rightarrow> string list" where
  "rds_loop gid [] rds_instances = rds_instances"
| "rds_loop gid (rds # rest) rds_instances =
     rds_loop gid rest (membership_loop gid (db_id rds) (vpc_security_groups rds) rds_instances)"

definition get_rds_instances :: "provider \<Rightarrow> group \<Rightarrow> log \<Rightarrow> string list run" where
  "get_rds_instances p g l =
     (case get_all_dbinstances p l of
        Inl e \<Rightarrow> (Inl (Fail_json (error_code e @ '': '' @ error_message e)),
                  l @ [Get_all_dbinstances])
      | Inr all_rds \<Rightarrow> (Inr (rds_loop (sg_id g) all_rds []), l @ [Get_all_dbinstances]))"

subsection \<open>\<^verbatim>\<open>get_network_interfaces\<close>\<close>

fun eni_loop :: "network_interface list \<Rightarrow> string list \<Rightarrow> string list" where
  "eni_loop [] network_interfaces = network_interfaces"
| "eni_loop (eni # rest) network_interfaces = eni_loop rest (network_interfaces @ [eni_id eni])"

definition get_network_interfaces :: "provider \<Rightarrow> group \<Rightarrow> log \<Rightarrow> string list run" where
  "get_network_interfaces p g l =
     (case get_all_network_interfaces p l (sg_id g) of
        Inl e \<Rightarrow> (Inl (Fail_json (error_code e @ '': '' @ error_message e)),
                  l @ [Get_all_network_interfaces (sg_id g)])
      | Inr all_enis \<Rightarrow> (Inr (eni_loop all_enis []), l @ [Get_all_network_interfaces (sg_id g)]))"

subsection \<open>\<^verbatim>\<open>get_associated_loadbalancers\<close>\<close>

fun elb_loop :: "string \<Rightarrow> loadbalancer list \<Rightarrow> string list \<Rightarrow> string list" where
  "elb_loop gid [] associated_loadbalancers = associated_loadbalancers"
| "elb_loop gid (elb # rest) associated_loadbalancers =
     elb_loop gid rest
       (if gid \<in> set (security_groups elb) then associated_loadbalancers @ [lb_name elb]
        else associated_loadbalancers)"

definition get_associated_loadbalancers :: "provider \<Rightarrow> group \<Rightarrow> log \<Rightarrow> string list run" where
  "get_associated_loadbalancers p g l =
     (case get_all_load_balancers p l of
        Inl e \<Rightarrow> (Inl (Fail_json (error_code e @ '': '' @ error_message e)),
                  l @ [Get_all_load_balancers])
      | Inr all_elbs \<Rightarrow> (Inr (elb_loop (sg_id g) all_elbs []), l @ [Get_all_load_balancers]))"

subsection \<open>\<^verbatim>\<open>get_associated_instances\<close>\<close>

text \<open>
  \<^verbatim>\<open>group.instances()\<close> asks the provider for the instances of the group. The
  function has no \<^verbatim>\<open>try\<close>: a \<^verbatim>\<open>BotoServerError\<close> raised by the call leaves it
  uncaught.
\<close>

fun instance_loop :: "ec2_instance list \<Rightarrow> string list \<Rightarrow> string list" where
  "instance_loop [] acc = acc"
| "instance_loop (i # rest) acc = instance_loop rest (acc @ [instance_id i])"

definition get_associated_instances :: "provider \<Rightarrow> group \<Rightarrow> log \<Rightarrow> string list run" where
  "get_associated_instances p g l =
     (case instances p l g of
        Inl e \<Rightarrow> (Inl (Uncaught e), l @ [Instances (sg_id g)])
      | Inr associated_instances \<Rightarrow>
          (Inr (instance_loop associated_instances []), l @ [Instances (sg_id g)]))"

subsection \<open>\<^verbatim>\<open>get_group_rules\<close>\<close>

text \<open>The inner loop over \<^verbatim>\<open>rule.grants\<close>; \<open>acc\<close> is the list \<^verbatim>\<open>grants\<close> of the source.\<close>

fun grant_loop :: "grant list \<Rightarrow> string list \<Rightarrow> string list" where
  "grant_loop [] acc = acc"
| "grant_loop (g # gs) acc =
     grant_loop gs
       (case group_id g of
          Some gid \<Rightarrow> acc @ [gid]
        | None \<Rightarrow> (case cidr_ip g of Some cidr \<Rightarrow> acc @ [cidr] | None \<Rightarrow> acc))"

text \<open>The outer loop over \<^verbatim>\<open>PermissionList\<close>; \<open>rules\<close> is the list being built.\<close>

fun rule_loop :: "rule list \<Rightarrow> string permission list \<Rightarrow> string permission list" where
  "rule_loop [] rules = rules"
| "rule_loop (r # rs) rules =
     rule_loop rs
       (rules @ [\<lparr>ip_protocol = ip_protocol r, from_port = from_port r, to_port = to_port r,
                  grants = grant_loop (grants r) []\<rparr>])"

definition get_group_rules :: "rule list \<Rightarrow> string permission list" where
  "get_group_rules PermissionList = rule_loop PermissionList []"

subsection \<open>\<^verbatim>\<open>get_group_info\<close>\<close>

text \<open>
  The test \<^verbatim>\<open>any(x in lookup for x in [kind, 'all'])\<close> is \<open>requested\<close>. The
  function fills \<^verbatim>\<open>group_info['resources']\<close> one key after the other, in the
  order \<^verbatim>\<open>ec2\<close>, \<^verbatim>\<open>elb\<close>, \<^verbatim>\<open>eni\<close>, \<^verbatim>\<open>rds\<close>; a provider error on the way ends
  the run and the dictionary built so far is lost with it. The model makes the
  four calls in that order and writes the four keys once all have returned.
\<close>

definition requested :: "string list \<Rightarrow> string \<Rightarrow> bool" where
  "requested lookup kind = list_ex (\<lambda>x. x \<in> set lookup) [kind, ''all'']"

definition get_group_info :: "provider \<Rightarrow> string list \<Rightarrow> group \<Rightarrow> log \<Rightarrow> group_info run" where
  "get_group_info p lookup g l =
     (let info = \<lparr>gi_id = sg_id g, gi_name = sg_name g, gi_description = sg_description g,
                  gi_vpc_id = sg_vpc_id g,
                  gi_rules = get_group_rules (sg_rules g),
                  gi_rules_egress = get_group_rules (sg_rules_egress g),
                  gi_resources = Map.empty\<rparr>
      in
      and_then (if requested lookup ''ec2'' then get_associated_instances p g l else (Inr [], l))
        (\<lambda>ec2 l.
      and_then (if requested lookup ''elb'' then get_associated_loadbalancers p g l else (Inr [], l))
        (\<lambda>elb l.
      and_then (if requested lookup ''eni'' then get_network_interfaces p g l else (Inr [], l))
        (\<lambda>eni l.
      and_then (if requested lookup ''rds'' then get_rds_instances p g l else (Inr [], l))
        (\<lambda>rds l.
      (Inr (info\<lparr>gi_resources :=
                   [''ec2'' \<mapsto> ec2, ''elb'' \<mapsto> elb, ''eni'' \<mapsto> eni, ''rds'' \<mapsto> rds]\<rparr>), l))))))"

subsection \<open>\<^verbatim>\<open>list_group\<close>\<close>

text \<open>The loop over \<^verbatim>\<open>all_groups\<close>, appending to \<^verbatim>\<open>group_dict_array\<close>.\<close>

fun group_loop ::
  "provider \<Rightarrow> string list \<Rightarrow> group list \<Rightarrow> group_info list \<Rightarrow> log \<Rightarrow> group_info list run" where
  "group_loop p lookup [] group_dict_array l = (Inr group_dict_array, l)"
| "group_loop p lookup (g # gs) group_dict_array l =
     and_then (get_group_info p lookup g l)
       (\<lambda>info l'. group_loop p lookup gs (group_dict_array @ [info]) l')"

text \<open>
  The result \<open>Inr groups\<close> is \<^verbatim>\<open>module.exit_json(groups=group_dict_array)\<close>, the only
  place where the module emits its output list.
\<close>

definition list_group :: "provider \<Rightarrow> filters \<Rightarrow> string list \<Rightarrow> log \<Rightarrow> group_info list run" where
  "list_group p fs lookup l =
     (case get_all_security_groups p l fs of
        Inl e \<Rightarrow> (Inl (Fail_json (message e)), l @ [Get_all_security_groups fs])
      | Inr all_groups \<Rightarrow> group_loop p lookup all_groups [] (l @ [Get_all_security_groups fs]))"

section \<open>IAM user facts: \<^verbatim>\<open>cloud/amazon/iam_user_facts.py\<close>\<close>

subsection \<open>Data\<close>

text \<open>
  A user as boto3 returns it: a dictionary with the keys below, the last one
  present only when the password has been used.
\<close>

record user =
  UserName :: string
  Path :: string
  UserId :: string
  Arn :: string
  CreateDate :: string
  PasswordLastUsed :: "string option"

text \<open>
  The dictionary \<^verbatim>\<open>params\<close> of keyword arguments. It only ever holds the keys
  \<^verbatim>\<open>UserName\<close>, \<^verbatim>\<open>MaxItems\<close> and \<^verbatim>\<open>PathPrefix\<close>; a key that has not been set
  is \<open>None\<close>.
\<close>

record params =
  arg_UserName :: "string option"
  arg_MaxItems :: "int option"
  arg_PathPrefix :: "string option"

text \<open>
  \<^verbatim>\<open>ClientError\<close> and \<^verbatim>\<open>ParamValidationError\<close> are caught by one handler, which
  reads \<^verbatim>\<open>e.message\<close> and \<^verbatim>\<open>e.response\<close>. The response is a dictionary of the
  provider's; its type is left open.
\<close>

record 'r client_error =
  ce_message :: string
  ce_response :: 'r

datatype iam_request = Get_user params | List_users params

type_synonym iam_log = "iam_request list"

record 'r connection =
  get_user :: "iam_log \<Rightarrow> params \<Rightarrow> 'r client_error + user"
  list_users :: "iam_log \<Rightarrow> params \<Rightarrow> 'r client_error + user list"

text \<open>
  How the module ends: \<^verbatim>\<open>module.exit_json(iam_users=...)\<close>, or
  \<^verbatim>\<open>module.fail_json(msg=..., **kwargs)\<close> (the keyword arguments are absent in
  the failure of \<^verbatim>\<open>main\<close>).
\<close>

datatype ('u, 'v) iam_outcome = Exit_json "'u list" | Iam_fail_json string "'v option"

text \<open>Truth value of \<^verbatim>\<open>name\<close> and \<^verbatim>\<open>path\<close>: \<^verbatim>\<open>None\<close> and the empty string are false.\<close>

fun truthy :: "string option \<Rightarrow> bool" where
  "truthy None = False"
| "truthy (Some s) = (s \<noteq> [])"

subsection \<open>\<^verbatim>\<open>list_iam_users\<close>\<close>

text \<open>
  \<^verbatim>\<open>camel_dict_to_snake_dict\<close> comes from \<^verbatim>\<open>ansible.module_utils.ec2\<close>, outside
  this repository. It is a parameter of the model, once at the type of a user
  (\<open>snake_user\<close>) and once at the type of an error response (\<open>snake_response\<close>).

  The body of the function after its first \<^verbatim>\<open>if\<close> statement: from
  \<^verbatim>\<open>if path:\<close> to the end. It receives \<^verbatim>\<open>params\<close> and \<^verbatim>\<open>iam_users\<close> as the first
  statement left them; \<^verbatim>\<open>iam_users\<close> is then assigned anew from the listing.
\<close>

definition list_users_part ::
  "(user \<Rightarrow> 'u) \<Rightarrow> ('r \<Rightarrow> 'v) \<Rightarrow> 'r connection \<Rightarrow> string option \<Rightarrow> string option \<Rightarrow>
   params \<Rightarrow> user list \<Rightarrow> iam_log \<Rightarrow> ('u, 'v) iam_outcome \<times> iam_log" where
  "list_users_part snake_user snake_response conn name path params0 iam_users0 l =
     (let params1 = (if truthy path
                     then params0\<lparr>arg_MaxItems := Some 1000, arg_PathPrefix := path\<rparr>
                     else params0)
      in case list_users conn l params1 of
           Inl e \<Rightarrow> (Iam_fail_json (ce_message e) (Some (snake_response (ce_response e))),
                     l @ [List_users params1])
         | Inr iam_users1 \<Rightarrow>
             (let iam_users2 = (if truthy name
                                then filter (\<lambda>user. Some (UserName user) = name) iam_users1
                                else iam_users1)
              in (Exit_json (map snake_user iam_users2), l @ [List_users params1])))"

definition list_iam_users ::
  "(user \<Rightarrow> 'u) \<Rightarrow> ('r \<Rightarrow> 'v) \<Rightarrow> 'r connection \<Rightarrow> string option \<Rightarrow> string option \<Rightarrow>
   iam_log \<Rightarrow> ('u, 'v) iam_outcome \<times> iam_log" where
  "list_iam_users snake_user snake_response conn name path l =
     (let params0 = \<lparr>arg_UserName = None, arg_MaxItems = None, arg_PathPrefix = None\<rparr>
      in if truthy name \<and> \<not> truthy path
         then (let params1 = params0\<lparr>arg_UserName := name\<rparr>
               in case get_user conn l params1 of
                    Inl e \<Rightarrow> (Iam_fail_json (ce_message e) (Some (snake_response (ce_response e))),
                              l @ [Get_user params1])
                  | Inr u \<Rightarrow> list_users_part snake_user snake_response conn name path params1 [u]
                              (l @ [Get_user params1]))
         else list_users_part snake_user snake_response conn name path params0 [] l)"

subsection \<open>\<^verbatim>\<open>main\<close>\<close>

text \<open>
  The argument specification gives \<^verbatim>\<open>path\<close> the default \<^verbatim>\<open>'/'\<close> and \<^verbatim>\<open>name\<close> none:
  an argument the caller leaves out is \<open>None\<close> on the way in, and \<^verbatim>\<open>path\<close> reaches
  \<^verbatim>\<open>list_iam_users\<close> as \<^verbatim>\<open>'/'\<close> then. \<open>has_boto3\<close> is the flag \<^verbatim>\<open>HAS_BOTO3\<close>.
\<close>

definition main ::
  "(user \<Rightarrow> 'u) \<Rightarrow> ('r \<Rightarrow> 'v) \<Rightarrow> bool \<Rightarrow> 'r connection \<Rightarrow> string option \<Rightarrow> string option \<Rightarrow>
   iam_log \<Rightarrow> ('u, 'v) iam_outcome \<times> iam_log" where
  "main snake_user snake_response has_boto3 conn name path l =
     (if \<not> has_boto3 then (Iam_fail_json ''boto3 required for this module'' None, l)
      else list_iam_users snake_user snake_response conn name
             (Some (case path of None \<Rightarrow> ''/'' | Some given \<Rightarrow> given)) l)"

section \<open>Concrete inventories\<close>

text \<open>
  A small account, used to run the model: one security group \<^verbatim>\<open>sg-1\<close> whose
  ingress rule has a CIDR grant, a grant that carries a group reference and a
  CIDR at once, and a grant that carries neither.
\<close>

definition cidr_grant :: grant where
  "cidr_grant = \<lparr>group_id = None, cidr_ip = Some ''0.0.0.0/0''\<rparr>"

definition double_grant :: grant where
  "double_grant = \<lparr>group_id = Some ''sg-2'', cidr_ip = Some ''10.0.0.0/8''\<rparr>"

definition bare_grant :: grant where
  "bare_grant = \<lparr>group_id = None, cidr_ip = None\<rparr>"

definition web_rule :: rule where
  "web_rule = \<lparr>ip_protocol = ''tcp'', from_port = Some ''80'', to_port = Some ''80'',
               grants = [cidr_grant, double_grant, bare_grant]\<rparr>"

definition sg1 :: group where
  "sg1 = \<lparr>sg_id = ''sg-1'', sg_name = ''default'',
          sg_description = ''default VPC security group'', sg_vpc_id = Some ''vpc-1'',
          sg_rules = [web_rule], sg_rules_egress = []\<rparr>"

definition sg2 :: group where
  "sg2 = \<lparr>sg_id = ''sg-2'', sg_name = ''db'', sg_description = ''database tier'',
          sg_vpc_id = Some ''vpc-1'', sg_rules = [], sg_rules_egress = []\<rparr>"

definition denied :: boto_server_error where
  "denied = \<lparr>message = ''You are not authorized to perform this operation.'',
             error_code = ''UnauthorizedOperation'',
             error_message = ''You are not authorized to perform this operation.''\<rparr>"

text \<open>A provider that answers every call, always with the same inventory.\<close>

definition inventory :: provider where
  "inventory =
     \<lparr>get_all_security_groups = (\<lambda>l fs. Inr [sg1, sg2]),
      instances = (\<lambda>l g. Inr (if sg_id g = ''sg-1'' then [\<lparr>instance_id = ''i-1''\<rparr>] else [])),
      get_all_load_balancers =
        (\<lambda>l. Inr [\<lparr>lb_name = ''web-elb'', security_groups = [''sg-1'']\<rparr>,
                   \<lparr>lb_name = ''api-elb'', security_groups = [''sg-7'']\<rparr>]),
      get_all_network_interfaces =
        (\<lambda>l gid. Inr (if gid = ''sg-1'' then [\<lparr>eni_id = ''eni-1''\<rparr>] else [])),
      get_all_dbinstances =
        (\<lambda>l. Inr [\<lparr>db_id = ''db-1'', vpc_security_groups = [\<lparr>vpc_group = ''sg-1''\<rparr>]\<rparr>,
                   \<lparr>db_id = ''db-2'', vpc_security_groups = [\<lparr>vpc_group = ''sg-2''\<rparr>]\<rparr>])\<rparr>"

text \<open>The same, with one database instance that lists \<^verbatim>\<open>sg-1\<close> in two memberships.\<close>

definition listed_twice :: provider where
  "listed_twice =
     inventory\<lparr>get_all_dbinstances :=
       (\<lambda>l. Inr [\<lparr>db_id = ''db-1'',
                    vpc_security_groups = [\<lparr>vpc_group = ''sg-1''\<rparr>, \<lparr>vpc_group = ''sg-1''\<rparr>]\<rparr>])\<rparr>"

text \<open>Providers that refuse one call: the instances of a group, the group listing,
  and the network interfaces of \<^verbatim>\<open>sg-2\<close>.\<close>

definition instances_denied :: provider where
  "instances_denied = inventory\<lparr>instances := (\<lambda>l g. Inl denied)\<rparr>"

definition listing_denied :: provider where
  "listing_denied = inventory\<lparr>get_all_security_groups := (\<lambda>l fs. Inl denied)\<rparr>"

definition interfaces_denied :: provider where
  "interfaces_denied =
     inventory\<lparr>get_all_network_interfaces :=
       (\<lambda>l gid. if gid = ''sg-2'' then Inl denied else Inr [\<lparr>eni_id = ''eni-1''\<rparr>])\<rparr>"

definition databases_denied :: provider where
  "databases_denied = inventory\<lparr>get_all_dbinstances := (\<lambda>l. Inl denied)\<rparr>"

text \<open>An IAM account with two users under the path \<^verbatim>\<open>/\<close>.\<close>

definition bob :: user where
  "bob = \<lparr>UserName = ''bob'', Path = ''/'', UserId = ''AIDA1'', Arn = ''arn:aws:iam::1:user/bob'',
          CreateDate = ''2016-05-24T12:24:59+00:00'', PasswordLastUsed = None\<rparr>"

definition bobby :: user where
  "bobby = \<lparr>UserName = ''bobby'', Path = ''/'', UserId = ''AIDA2'',
            Arn = ''arn:aws:iam::1:user/bobby'',
            CreateDate = ''2016-05-25T13:39:11+00:00'', PasswordLastUsed = None\<rparr>"

definition no_such_entity :: "string client_error" where
  "no_such_entity = \<lparr>ce_message = ''The user with name bob cannot be found.'',
                     ce_response = ''NoSuchEntity''\<rparr>"

definition account :: "string connection" where
  "account = \<lparr>get_user = (\<lambda>l ps. Inr bob), list_users = (\<lambda>l ps. Inr [bobby, bob])\<rparr>"

definition account_without_get :: "string connection" where
  "account_without_get = account\<lparr>get_user := (\<lambda>l ps. Inl no_such_entity)\<rparr>"

section \<open>Properties of the rule normalisation\<close>

text \<open>The accumulator of the inner loop only grows at its end.\<close>

lemma grant_loop_acc: "grant_loop gs acc = acc @ grant_loop gs []"
proof (induction gs arbitrary: acc)
  case Nil
  show ?case by simp
next
  case (Cons g gs)
  define x where "x = (case group_id g of Some gid \<Rightarrow> [gid]
                        | None \<Rightarrow> (case cidr_ip g of Some cidr \<Rightarrow> [cidr] | None \<Rightarrow> []))"
  have step: "grant_loop (g # gs) a = grant_loop gs (a @ x)" for a
    by (simp add: x_def split: option.split)
  have "grant_loop (g # gs) acc = (acc @ x) @ grant_loop gs []"
    unfolding step by (rule Cons.IH)
  moreover have "grant_loop (g # gs) [] = x @ grant_loop gs []"
    unfolding step using Cons.IH [of "[] @ x"] by simp
  ultimately show ?case by simp
qed

lemma grant_loop_Cons:
  "grant_loop (g # gs) [] =
     (case group_id g of Some gid \<Rightarrow> [gid]
      | None \<Rightarrow> (case cidr_ip g of Some cidr \<Rightarrow> [cidr] | None \<Rightarrow> [])) @ grant_loop gs []"
proof -
  have "grant_loop (g # gs) [] =
          grant_loop gs (case group_id g of Some gid \<Rightarrow> [gid]
                         | None \<Rightarrow> (case cidr_ip g of Some cidr \<Rightarrow> [cidr] | None \<Rightarrow> []))"
    by (simp split: option.split)
  then show ?thesis by (simp only: grant_loop_acc [symmetric])
qed

lemma grant_loop_concat:
  "grant_loop gs [] =
     concat (map (\<lambda>g. case group_id g of Some gid \<Rightarrow> [gid]
                        | None \<Rightarrow> (case cidr_ip g of Some cidr \<Rightarrow> [cidr] | None \<Rightarrow> [])) gs)"
proof (induction gs)
  case Nil
  show ?case by simp
next
  case (Cons g gs)
  show ?case unfolding grant_loop_Cons Cons.IH by simp
qed

lemma grant_loop_split:
  "grant_loop (gs1 @ g # gs2) [] =
     grant_loop gs1 [] @
     (case group_id g of Some gid \<Rightarrow> [gid]
      | None \<Rightarrow> (case cidr_ip g of Some cidr \<Rightarrow> [cidr] | None \<Rightarrow> [])) @
     grant_loop gs2 []"
  unfolding grant_loop_concat by simp

lemma rule_loop_map:
  "rule_loop rs acc =
     acc @ map (\<lambda>r. \<lparr>ip_protocol = ip_protocol r, from_port = from_port r, to_port = to_port r,
                       grants = grant_loop (grants r) []\<rparr>) rs"
  by (induction rs arbitrary: acc) simp_all

lemma get_group_rules_nth:
  "i < length rs \<Longrightarrow>
     get_group_rules rs ! i =
       \<lparr>ip_protocol = ip_protocol (rs ! i), from_port = from_port (rs ! i),
        to_port = to_port (rs ! i), grants = grant_loop (grants (rs ! i)) []\<rparr>"
  by (simp add: get_group_rules_def rule_loop_map)

lemma get_group_rules_length: "length (get_group_rules rs) = length rs"
  by (simp add: get_group_rules_def rule_loop_map)

text \<open>
  Claim C5. For a permission list of \<open>N\<close> entries, \<^verbatim>\<open>get_group_rules\<close> returns \<open>N\<close>
  records; the record at each position carries the protocol, the from-port and
  the to-port of the entry at that position, and its grant strings are those of
  the entry's grants, one after the other in the order of the grants (a grant
  gives its group identifier, or else its CIDR, or else nothing).
\<close>

theorem normalize_preserves_entries:
  "length (get_group_rules rs) = length rs \<and>
   (\<forall>i<length rs.
      ip_protocol (get_group_rules rs ! i) = ip_protocol (rs ! i) \<and>
      from_port (get_group_rules rs ! i) = from_port (rs ! i) \<and>
      to_port (get_group_rules rs ! i) = to_port (rs ! i) \<and>
      grants (get_group_rules rs ! i) =
        concat (map (\<lambda>g. case group_id g of Some gid \<Rightarrow> [gid]
                           | None \<Rightarrow> (case cidr_ip g of Some cidr \<Rightarrow> [cidr] | None \<Rightarrow> []))
                    (grants (rs ! i))))"
proof (intro conjI allI impI)
  show "length (get_group_rules rs) = length rs"
    by (rule get_group_rules_length)
next
  fix i assume i: "i < length rs"
  show "ip_protocol (get_group_rules rs ! i) = ip_protocol (rs ! i)"
    by (simp add: get_group_rules_nth [OF i])
  show "from_port (get_group_rules rs ! i) = from_port (rs ! i)"
    by (simp add: get_group_rules_nth [OF i])
  show "to_port (get_group_rules rs ! i) = to_port (rs ! i)"
    by (simp add: get_group_rules_nth [OF i])
  show "grants (get_group_rules rs ! i) =
        concat (map (\<lambda>g. case group_id g of Some gid \<Rightarrow> [gid]
                           | None \<Rightarrow> (case cidr_ip g of Some cidr \<Rightarrow> [cidr] | None \<Rightarrow> []))
                    (grants (rs ! i)))"
    by (simp add: get_group_rules_nth [OF i] grant_loop_concat)
qed

theorem normalize_preserves_entries_witness:
  "length (get_group_rules [web_rule, web_rule\<lparr>ip_protocol := ''udp''\<rparr>]) = 2 \<and>
   ip_protocol (get_group_rules [web_rule, web_rule\<lparr>ip_protocol := ''udp''\<rparr>] ! 1) = ''udp'' \<and>
   from_port (get_group_rules [web_rule, web_rule\<lparr>ip_protocol := ''udp''\<rparr>] ! 1) = Some ''80'' \<and>
   to_port (get_group_rules [web_rule, web_rule\<lparr>ip_protocol := ''udp''\<rparr>] ! 1) = Some ''80'' \<and>
   grants (get_group_rules [web_rule, web_rule\<lparr>ip_protocol := ''udp''\<rparr>] ! 1)
     = [''0.0.0.0/0'', ''sg-2'']"
proof -
  have "(1::nat) < length [web_rule, web_rule\<lparr>ip_protocol := ''udp''\<rparr>]" by simp
  with normalize_preserves_entries [of "[web_rule, web_rule\<lparr>ip_protocol := ''udp''\<rparr>]"]
  show ?thesis
    by (simp add: web_rule_def cidr_grant_def double_grant_def bare_grant_def)
qed

text \<open>
  Claim C6. A grant entry of a permission entry contributes to the flattened
  list exactly one string, its group identifier or else its CIDR, or nothing
  when it has neither: the list is what the grants before it give, then that
  contribution, then what the grants after it give. \<^verbatim>\<open>get_group_rules\<close> has no
  failing branch, so a grant with neither is skipped and nothing is raised.
\<close>

theorem grant_flattens_to_one_string:
  assumes "i < length rs" and "grants (rs ! i) = gs1 @ g # gs2"
  shows "grants (get_group_rules rs ! i) =
           grant_loop gs1 [] @
           (case group_id g of Some gid \<Rightarrow> [gid]
            | None \<Rightarrow> (case cidr_ip g of Some cidr \<Rightarrow> [cidr] | None \<Rightarrow> [])) @
           grant_loop gs2 []"
  using assms by (simp add: get_group_rules_nth grant_loop_split)

theorem grant_flattens_to_one_string_witness:
  "grants (get_group_rules [web_rule] ! 0) = [''0.0.0.0/0'', ''sg-2''] @ [] @ []"
proof -
  have "(0::nat) < length [web_rule]" by simp
  moreover have "grants ([web_rule] ! 0) = [cidr_grant, double_grant] @ bare_grant # []"
    by (simp add: web_rule_def)
  ultimately have "grants (get_group_rules [web_rule] ! 0) =
      grant_loop [cidr_grant, double_grant] [] @
      (case group_id bare_grant of Some gid \<Rightarrow> [gid]
       | None \<Rightarrow> (case cidr_ip bare_grant of Some cidr \<Rightarrow> [cidr] | None \<Rightarrow> [])) @
      grant_loop [] []"
    by (rule grant_flattens_to_one_string)
  then show ?thesis
    by (simp add: cidr_grant_def double_grant_def bare_grant_def)
qed

text \<open>
  Claim C10. A grant that carries both a group identifier and a CIDR contributes
  the group identifier alone; the CIDR does not appear for it.
\<close>

theorem group_reference_takes_precedence:
  assumes "group_id g = Some gid" and "cidr_ip g = Some cidr"
    and "i < length rs" and "grants (rs ! i) = gs1 @ g # gs2"
  shows "grants (get_group_rules rs ! i) = grant_loop gs1 [] @ [gid] @ grant_loop gs2 []"
  using assms by (simp add: get_group_rules_nth grant_loop_split)

theorem group_reference_takes_precedence_witness:
  "grants (get_group_rules [web_rule] ! 0) = [''0.0.0.0/0''] @ [''sg-2''] @ []"
proof -
  have "group_id double_grant = Some ''sg-2''" and "cidr_ip double_grant = Some ''10.0.0.0/8''"
    by (simp_all add: double_grant_def)
  moreover have "(0::nat) < length [web_rule]" by simp
  moreover have "grants ([web_rule] ! 0) = [cidr_grant] @ double_grant # [bare_grant]"
    by (simp add: web_rule_def)
  ultimately have "grants (get_group_rules [web_rule] ! 0) =
      grant_loop [cidr_grant] [] @ [''sg-2''] @ grant_loop [bare_grant] []"
    by (rule group_reference_takes_precedence)
  then show ?thesis
    by (simp add: cidr_grant_def bare_grant_def)
qed

section \<open>Properties of the association lookup\<close>

subsection \<open>Sequencing and the shape of a successful lookup\<close>

lemma and_then_Inl: "and_then (Inl a, l) k = (Inl a, l)"
  by (simp add: and_then_def)

lemma and_then_Inr: "and_then (Inr x, l) k = k x l"
  by (simp add: and_then_def)

lemma and_then_success:
  "and_then r k = (Inr y, l') \<longleftrightarrow> (\<exists>x l1. r = (Inr x, l1) \<and> k x l1 = (Inr y, l'))"
  by (cases r; cases "fst r") (auto simp: and_then_def)

lemma requested_iff: "requested lookup kind \<longleftrightarrow> kind \<in> set lookup \<or> ''all'' \<in> set lookup"
  by (simp add: requested_def)

lemma get_group_info_success:
  assumes "get_group_info p lookup g l = (Inr info, l')"
  shows "\<exists>ec2 elb eni rds l1 l2 l3.
           (if requested lookup ''ec2'' then get_associated_instances p g l else (Inr [], l)) = (Inr ec2, l1) \<and>
           (if requested lookup ''elb'' then get_associated_loadbalancers p g l1 else (Inr [], l1)) = (Inr elb, l2) \<and>
           (if requested lookup ''eni'' then get_network_interfaces p g l2 else (Inr [], l2)) = (Inr eni, l3) \<and>
           (if requested lookup ''rds'' then get_rds_instances p g l3 else (Inr [], l3)) = (Inr rds, l') \<and>
           info = \<lparr>gi_id = sg_id g, gi_name = sg_name g, gi_description = sg_description g,
                   gi_vpc_id = sg_vpc_id g,
                   gi_rules = get_group_rules (sg_rules g),
                   gi_rules_egress = get_group_rules (sg_rules_egress g),
                   gi_resources = [''ec2'' \<mapsto> ec2, ''elb'' \<mapsto> elb, ''eni'' \<mapsto> eni, ''rds'' \<mapsto> rds]\<rparr>"
proof -
  from assms obtain ec2 l1 elb l2 eni l3 rds l4 where
    a: "(if requested lookup ''ec2'' then get_associated_instances p g l else (Inr [], l)) = (Inr ec2, l1)"
    and b: "(if requested lookup ''elb'' then get_associated_loadbalancers p g l1 else (Inr [], l1)) = (Inr elb, l2)"
    and c: "(if requested lookup ''eni'' then get_network_interfaces p g l2 else (Inr [], l2)) = (Inr eni, l3)"
    and d: "(if requested lookup ''rds'' then get_rds_instances p g l3 else (Inr [], l3)) = (Inr rds, l4)"
    and e: "(Inr (\<lparr>gi_id = sg_id g, gi_name = sg_name g, gi_description = sg_description g,
                   gi_vpc_id = sg_vpc_id g,
                   gi_rules = get_group_rules (sg_rules g),
                   gi_rules_egress = get_group_rules (sg_rules_egress g),
                   gi_resources = Map.empty\<rparr>\<lparr>gi_resources :=
                   [''ec2'' \<mapsto> ec2, ''elb'' \<mapsto> elb, ''eni'' \<mapsto> eni, ''rds'' \<mapsto> rds]\<rparr>), l4)
            = (Inr info, l')"
    unfolding get_group_info_def Let_def and_then_success by blast
  from e have l4: "l4 = l'" and info: "info = \<lparr>gi_id = sg_id g, gi_name = sg_name g, gi_description = sg_description g,
                   gi_vpc_id = sg_vpc_id g,
                   gi_rules = get_group_rules (sg_rules g),
                   gi_rules_egress = get_group_rules (sg_rules_egress g),
                   gi_resources = [''ec2'' \<mapsto> ec2, ''elb'' \<mapsto> elb, ''eni'' \<mapsto> eni, ''rds'' \<mapsto> rds]\<rparr>"
    by simp_all
  from a b c d [unfolded l4] info show ?thesis by blast
qed

subsection \<open>Kinds that are not requested\<close>

lemma resources_keys:
  "dom [''ec2'' \<mapsto> (a::string list), ''elb'' \<mapsto> b, ''eni'' \<mapsto> c, ''rds'' \<mapsto> d]
     = {''ec2'', ''elb'', ''eni'', ''rds''}"
  by auto

text \<open>
  Claim C7. Whenever \<^verbatim>\<open>get_group_info\<close> returns a record, its \<^verbatim>\<open>resources\<close>
  dictionary has exactly the four keys \<^verbatim>\<open>ec2\<close>, \<^verbatim>\<open>elb\<close>, \<^verbatim>\<open>eni\<close> and \<^verbatim>\<open>rds\<close>,
  and a kind that the lookup list does not request, neither by its name nor by
  \<^verbatim>\<open>all\<close>, is mapped to the empty list.
\<close>

theorem unrequested_kinds_are_empty:
  assumes "get_group_info p lookup g l = (Inr info, l')"
  shows "dom (gi_resources info) = {''ec2'', ''elb'', ''eni'', ''rds''} \<and>
         (\<forall>kind \<in> {''ec2'', ''elb'', ''eni'', ''rds''}.
            kind \<notin> set lookup \<and> ''all'' \<notin> set lookup \<longrightarrow> gi_resources info kind = Some [])"
proof -
  from get_group_info_success [OF assms] obtain ec2 elb eni rds l1 l2 l3 where
    a: "(if requested lookup ''ec2'' then get_associated_instances p g l else (Inr [], l)) = (Inr ec2, l1)"
    and b: "(if requested lookup ''elb'' then get_associated_loadbalancers p g l1 else (Inr [], l1)) = (Inr elb, l2)"
    and c: "(if requested lookup ''eni'' then get_network_interfaces p g l2 else (Inr [], l2)) = (Inr eni, l3)"
    and d: "(if requested lookup ''rds'' then get_rds_instances p g l3 else (Inr [], l3)) = (Inr rds, l')"
    and res: "gi_resources info = [''ec2'' \<mapsto> ec2, ''elb'' \<mapsto> elb, ''eni'' \<mapsto> eni, ''rds'' \<mapsto> rds]"
    by force
  have keys: "dom (gi_resources info) = {''ec2'', ''elb'', ''eni'', ''rds''}"
    unfolding res by (rule resources_keys)
  have e1: "\<not> requested lookup ''ec2'' \<Longrightarrow> ec2 = []" using a by simp
  have e2: "\<not> requested lookup ''elb'' \<Longrightarrow> elb = []" using b by simp
  have e3: "\<not> requested lookup ''eni'' \<Longrightarrow> eni = []" using c by simp
  have e4: "\<not> requested lookup ''rds'' \<Longrightarrow> rds = []" using d by simp
  have "\<forall>kind \<in> {''ec2'', ''elb'', ''eni'', ''rds''}.
            kind \<notin> set lookup \<and> ''all'' \<notin> set lookup \<longrightarrow> gi_resources info kind = Some []"
    using e1 e2 e3 e4 by (simp add: res requested_iff)
  with keys show ?thesis by blast
qed

theorem unrequested_kinds_are_empty_witness:
  "dom (gi_resources (projr (fst (get_group_info inventory [''eni''] sg1 []))))
     = {''ec2'', ''elb'', ''eni'', ''rds''} \<and>
   gi_resources (projr (fst (get_group_info inventory [''eni''] sg1 []))) ''ec2'' = Some [] \<and>
   gi_resources (projr (fst (get_group_info inventory [''eni''] sg1 []))) ''elb'' = Some [] \<and>
   gi_resources (projr (fst (get_group_info inventory [''eni''] sg1 []))) ''eni'' = Some [''eni-1''] \<and>
   gi_resources (projr (fst (get_group_info inventory [''eni''] sg1 []))) ''rds'' = Some []"
proof -
  obtain info where run:
    "get_group_info inventory [''eni''] sg1 [] = (Inr info, [Get_all_network_interfaces ''sg-1''])"
    by (simp add: get_group_info_def requested_def and_then_def get_network_interfaces_def
        inventory_def sg1_def)
  have eni: "gi_resources info ''eni'' = Some [''eni-1'']"
    using run
    by (auto simp: get_group_info_def requested_def and_then_def get_network_interfaces_def
        inventory_def sg1_def)
  from unrequested_kinds_are_empty [OF run]
  have "dom (gi_resources info) = {''ec2'', ''elb'', ''eni'', ''rds''}"
    and "gi_resources info ''ec2'' = Some []"
    and "gi_resources info ''elb'' = Some []"
    and "gi_resources info ''rds'' = Some []"
    by simp_all
  with eni show ?thesis by (simp add: run)
qed

subsection \<open>The lookup value \<^verbatim>\<open>all\<close>\<close>

lemma group_loop_cong:
  assumes "\<And>g l. get_group_info p lookup1 g l = get_group_info p lookup2 g l"
  shows "group_loop p lookup1 gs acc l = group_loop p lookup2 gs acc l"
proof (induction gs arbitrary: acc l)
  case Nil
  show ?case by simp
next
  case (Cons g gs)
  have "(\<lambda>info l'. group_loop p lookup1 gs (acc @ [info]) l') =
        (\<lambda>info l'. group_loop p lookup2 gs (acc @ [info]) l')"
    by (intro ext) (rule Cons.IH)
  then show ?case by (simp add: assms)
qed

text \<open>
  Claim C8. A lookup list that contains \<^verbatim>\<open>all\<close> gives, for every provider, group
  and log, the same run as the explicit list of the four kinds: the same
  association set or the same failure, after the same requests. The same holds
  for the whole listing.
\<close>

theorem all_is_the_four_kinds:
  assumes "''all'' \<in> set lookup"
  shows "get_group_info p lookup g l = get_group_info p [''ec2'', ''elb'', ''eni'', ''rds''] g l \<and>
         list_group p fs lookup l = list_group p fs [''ec2'', ''elb'', ''eni'', ''rds''] l"
proof -
  have one: "get_group_info p lookup g l = get_group_info p [''ec2'', ''elb'', ''eni'', ''rds''] g l"
    for g l
    using assms by (simp add: get_group_info_def requested_iff)
  have "group_loop p lookup gs acc l = group_loop p [''ec2'', ''elb'', ''eni'', ''rds''] gs acc l"
    for gs acc l
    by (rule group_loop_cong) (rule one)
  then have "list_group p fs lookup l = list_group p fs [''ec2'', ''elb'', ''eni'', ''rds''] l"
    by (simp add: list_group_def split: sum.split)
  with one show ?thesis by blast
qed

theorem all_is_the_four_kinds_witness:
  "get_group_info inventory [''all''] sg1 []
     = get_group_info inventory [''ec2'', ''elb'', ''eni'', ''rds''] sg1 [] \<and>
   list_group inventory None [''all''] []
     = list_group inventory None [''ec2'', ''elb'', ''eni'', ''rds''] []"
proof -
  have "''all'' \<in> set [''all'']" by simp
  then show ?thesis by (rule all_is_the_four_kinds)
qed

subsection \<open>Database instances\<close>

lemma membership_loop_acc:
  "membership_loop gid rid ms acc =
     acc @ map (\<lambda>m. rid) (filter (\<lambda>m. vpc_group m = gid) ms)"
  by (induction ms arbitrary: acc) auto

lemma rds_loop_acc:
  "rds_loop gid rs acc =
     acc @ concat (map (\<lambda>r. map (\<lambda>m. db_id r)
                               (filter (\<lambda>m. vpc_group m = gid) (vpc_security_groups r))) rs)"
  by (induction rs arbitrary: acc) (simp_all add: membership_loop_acc)

lemma concat_at_most_one:
  assumes "\<forall>r \<in> set rs. length (filter P (f r)) \<le> 1"
  shows "concat (map (\<lambda>r. map (\<lambda>m. h r) (filter P (f r))) rs) =
         map h (filter (\<lambda>r. \<exists>m \<in> set (f r). P m) rs)"
  using assms
proof (induction rs)
  case Nil
  show ?case by simp
next
  case (Cons r rs)
  have one: "length (filter P (f r)) \<le> 1" using Cons.prems by simp
  have "map (\<lambda>m. h r) (filter P (f r)) = (if \<exists>m \<in> set (f r). P m then [h r] else [])"
  proof (cases "filter P (f r)")
    case Nil
    then have "\<not> (\<exists>m \<in> set (f r). P m)" by (simp add: filter_empty_conv)
    with Nil show ?thesis by simp
  next
    case (Cons m ms)
    with one have "ms = []" by simp
    moreover have "\<exists>m \<in> set (f r). P m"
      using Cons by (metis filter_empty_conv list.distinct(1))
    ultimately show ?thesis using Cons by simp
  qed
  with Cons show ?case by simp
qed

lemma get_rds_instances_success:
  assumes "get_rds_instances p g l = (Inr ids, l')"
  shows "\<exists>all_rds. get_all_dbinstances p l = Inr all_rds \<and> l' = l @ [Get_all_dbinstances] \<and>
           ids = rds_loop (sg_id g) all_rds []"
  using assms by (auto simp: get_rds_instances_def split: sum.splits)

text \<open>
  What the two loops compute. When \<^verbatim>\<open>rds\<close> is requested and \<^verbatim>\<open>get_group_info\<close>
  returns a record, the \<^verbatim>\<open>rds\<close> entry holds, in the order of the provider's
  inventory, the identifier of a database instance once for every VPC
  security-group membership of that instance that references the group id. So
  an identifier is in the entry exactly when some membership of an instance with
  that identifier references the group id; and when no instance references the
  group in more than one membership, the entry has one identifier per associated
  instance. The inventory is the answer to the last request of the run.
\<close>

lemma rds_entries_per_membership:
  assumes "requested lookup ''rds''" and "get_group_info p lookup g l = (Inr info, l')"
  shows "\<exists>all_rds ids.
           get_all_dbinstances p (butlast l') = Inr all_rds \<and>
           gi_resources info ''rds'' = Some ids \<and>
           ids = concat (map (\<lambda>r. map (\<lambda>m. db_id r)
                    (filter (\<lambda>m. vpc_group m = sg_id g) (vpc_security_groups r))) all_rds) \<and>
           (\<forall>x. x \<in> set ids \<longleftrightarrow>
                  (\<exists>r \<in> set all_rds. db_id r = x \<and>
                     (\<exists>m \<in> set (vpc_security_groups r). vpc_group m = sg_id g))) \<and>
           ((\<forall>r \<in> set all_rds.
               length (filter (\<lambda>m. vpc_group m = sg_id g) (vpc_security_groups r)) \<le> 1) \<longrightarrow>
            ids = map db_id (filter (\<lambda>r. \<exists>m \<in> set (vpc_security_groups r). vpc_group m = sg_id g)
                               all_rds))"
proof -
  from get_group_info_success [OF assms(2)] obtain rds l3 ec2 elb eni where
    d: "(if requested lookup ''rds'' then get_rds_instances p g l3 else (Inr [], l3)) = (Inr rds, l')"
    and res: "gi_resources info = [''ec2'' \<mapsto> ec2, ''elb'' \<mapsto> elb, ''eni'' \<mapsto> eni, ''rds'' \<mapsto> rds]"
    by force
  from d assms(1) have "get_rds_instances p g l3 = (Inr rds, l')" by simp
  from get_rds_instances_success [OF this] obtain all_rds where
    inv: "get_all_dbinstances p l3 = Inr all_rds" and l': "l' = l3 @ [Get_all_dbinstances]"
    and rds: "rds = rds_loop (sg_id g) all_rds []"
    by blast
  let ?ids = "concat (map (\<lambda>r. map (\<lambda>m. db_id r)
                    (filter (\<lambda>m. vpc_group m = sg_id g) (vpc_security_groups r))) all_rds)"
  have 1: "get_all_dbinstances p (butlast l') = Inr all_rds" using inv l' by simp
  have 2: "gi_resources info ''rds'' = Some rds" by (simp add: res)
  have 3: "rds = ?ids" by (simp add: rds rds_loop_acc)
  have 4: "\<forall>x. x \<in> set rds \<longleftrightarrow>
                  (\<exists>r \<in> set all_rds. db_id r = x \<and>
                     (\<exists>m \<in> set (vpc_security_groups r). vpc_group m = sg_id g))"
    unfolding 3 by auto
  have 5: "(\<forall>r \<in> set all_rds.
               length (filter (\<lambda>m. vpc_group m = sg_id g) (vpc_security_groups r)) \<le> 1) \<longrightarrow>
            rds = map db_id (filter (\<lambda>r. \<exists>m \<in> set (vpc_security_groups r). vpc_group m = sg_id g)
                               all_rds)"
    unfolding 3 by (rule impI) (rule concat_at_most_one)
  from 1 2 3 4 5 show ?thesis by blast
qed

lemma rds_entries_per_membership_inventory:
  "gi_resources (projr (fst (get_group_info inventory [''rds''] sg1 []))) ''rds'' = Some [''db-1'']"
proof -
  obtain info where run:
    "get_group_info inventory [''rds''] sg1 [] = (Inr info, [Get_all_dbinstances])"
    by (simp add: get_group_info_def requested_def and_then_def get_rds_instances_def
        inventory_def sg1_def)
  have "requested [''rds''] ''rds''" by (simp add: requested_def)
  from rds_entries_per_membership [OF this run] obtain all_rds ids where
    "get_all_dbinstances inventory (butlast [Get_all_dbinstances]) = Inr all_rds"
    and "gi_resources info ''rds'' = Some ids"
    and "ids = concat (map (\<lambda>r. map (\<lambda>m. db_id r)
                 (filter (\<lambda>m. vpc_group m = sg_id sg1) (vpc_security_groups r))) all_rds)"
    by blast
  then have "gi_resources info ''rds'' = Some [''db-1'']"
    by (auto simp: inventory_def sg1_def)
  then show ?thesis by (simp add: run)
qed

text \<open>
  Claim C4. The \<^verbatim>\<open>rds\<close> entry is to contain the identifier of a database instance
  exactly when one of its memberships references the group id, with one entry
  per associated database instance. The first part holds, as shown above. The
  second does not: the inner loop appends the identifier at every membership
  that matches and has no \<^verbatim>\<open>break\<close>, so an inventory with the single database
  instance \<^verbatim>\<open>db-1\<close>, which lists \<^verbatim>\<open>sg-1\<close> in two memberships, gives the entry
  \<^verbatim>\<open>db-1\<close> twice. \<^verbatim>\<open>get_associated_loadbalancers\<close> tests \<^verbatim>\<open>group.id in
  elb.security_groups\<close> and lists a load balancer once however often the group
  is repeated.
\<close>

theorem rds_instance_listed_twice:
  "get_rds_instances listed_twice sg1 [] = (Inr [''db-1'', ''db-1''], [Get_all_dbinstances]) \<and>
   \<not> isl (fst (get_group_info listed_twice [''rds''] sg1 [])) \<and>
   gi_resources (projr (fst (get_group_info listed_twice [''rds''] sg1 []))) ''rds''
     = Some [''db-1'', ''db-1'']"
  by (simp add: get_group_info_def requested_def and_then_def get_rds_instances_def
      listed_twice_def inventory_def sg1_def)

section \<open>Properties of the facts aggregation\<close>

lemma get_group_info_id:
  assumes "get_group_info p lookup g l = (Inr info, l')"
  shows "gi_id info = sg_id g"
  using get_group_info_success [OF assms] by force

lemma group_loop_append:
  "group_loop p lookup (xs @ ys) acc l =
     and_then (group_loop p lookup xs acc l) (\<lambda>infos l'. group_loop p lookup ys infos l')"
proof (induction xs arbitrary: acc l)
  case Nil
  show ?case by (simp add: and_then_Inr)
next
  case (Cons x xs)
  show ?case
  proof (cases "get_group_info p lookup x l")
    case (Pair r l1)
    show ?thesis
    proof (cases r)
      case (Inl a)
      with Pair show ?thesis by (simp add: and_then_Inl)
    next
      case (Inr info)
      with Pair show ?thesis by (simp add: and_then_Inr Cons.IH)
    qed
  qed
qed

lemma group_loop_acc:
  "group_loop p lookup gs acc l = (Inr out, l') \<Longrightarrow>
     \<exists>infos. out = acc @ infos \<and> map gi_id infos = map sg_id gs"
proof (induction gs arbitrary: acc l)
  case Nil
  then show ?case by simp
next
  case (Cons g gs)
  from Cons.prems obtain info l1 where
    g: "get_group_info p lookup g l = (Inr info, l1)"
    and rest: "group_loop p lookup gs (acc @ [info]) l1 = (Inr out, l')"
    by (auto simp: and_then_success)
  from Cons.IH [OF rest] obtain infos where
    "out = (acc @ [info]) @ infos" and "map gi_id infos = map sg_id gs"
    by blast
  with get_group_info_id [OF g] have
    "out = acc @ (info # infos) \<and> map gi_id (info # infos) = map sg_id (g # gs)"
    by simp
  then show ?case by blast
qed

lemma group_loop_abort_at:
  assumes "group_loop p lookup pre acc l = (Inr infos, l1)"
    and "get_group_info p lookup g l1 = (Inl a, l2)"
  shows "group_loop p lookup (pre @ g # post) acc l = (Inl a, l2)"
  using assms by (simp add: group_loop_append and_then_Inr and_then_Inl)

text \<open>
  Claim C9. \<^verbatim>\<open>list_group\<close> emits its list (\<open>Inr\<close>) or nothing. When the group
  listing fails, the run ends in \<^verbatim>\<open>fail_json\<close>. When the listing gives the groups
  \<open>pre @ g # post\<close>, the groups of \<open>pre\<close> are resolved and \<^verbatim>\<open>get_group_info\<close> then
  aborts on \<open>g\<close>, at whatever position \<open>g\<close> stands, the run ends in that abort and
  the records built for \<open>pre\<close> are not emitted. A list that is emitted has one
  record for every listed group, in the order of the listing.
\<close>

theorem facts_are_all_or_nothing:
  "(get_all_security_groups p l fs = Inl e \<longrightarrow>
      list_group p fs lookup l = (Inl (Fail_json (message e)), l @ [Get_all_security_groups fs])) \<and>
   (get_all_security_groups p l fs = Inr (pre @ g # post) \<and>
    group_loop p lookup pre [] (l @ [Get_all_security_groups fs]) = (Inr infos, l1) \<and>
    get_group_info p lookup g l1 = (Inl a, l2) \<longrightarrow>
      list_group p fs lookup l = (Inl a, l2)) \<and>
   (list_group p fs lookup l = (Inr out, l') \<longrightarrow>
      (\<exists>all_groups. get_all_security_groups p l fs = Inr all_groups \<and>
                     map gi_id out = map sg_id all_groups))"
proof (intro conjI impI)
  assume "get_all_security_groups p l fs = Inl e"
  then show "list_group p fs lookup l = (Inl (Fail_json (message e)), l @ [Get_all_security_groups fs])"
    by (simp add: list_group_def)
next
  assume h: "get_all_security_groups p l fs = Inr (pre @ g # post) \<and>
    group_loop p lookup pre [] (l @ [Get_all_security_groups fs]) = (Inr infos, l1) \<and>
    get_group_info p lookup g l1 = (Inl a, l2)"
  then have "group_loop p lookup (pre @ g # post) [] (l @ [Get_all_security_groups fs]) = (Inl a, l2)"
    by (intro group_loop_abort_at) blast+
  with h show "list_group p fs lookup l = (Inl a, l2)"
    by (simp add: list_group_def)
next
  assume out: "list_group p fs lookup l = (Inr out, l')"
  show "\<exists>all_groups. get_all_security_groups p l fs = Inr all_groups \<and>
                     map gi_id out = map sg_id all_groups"
  proof (cases "get_all_security_groups p l fs")
    case (Inl e)
    with out show ?thesis by (simp add: list_group_def)
  next
    case (Inr all_groups)
    with out have "group_loop p lookup all_groups [] (l @ [Get_all_security_groups fs]) = (Inr out, l')"
      by (simp add: list_group_def)
    from group_loop_acc [OF this] Inr show ?thesis by auto
  qed
qed

theorem facts_are_all_or_nothing_witness:
  "list_group listing_denied None [''eni''] []
     = (Inl (Fail_json ''You are not authorized to perform this operation.''),
        [Get_all_security_groups None]) \<and>
   list_group interfaces_denied None [''eni''] []
     = (Inl (Fail_json ''UnauthorizedOperation: You are not authorized to perform this operation.''),
        [Get_all_security_groups None, Get_all_network_interfaces ''sg-1'',
         Get_all_network_interfaces ''sg-2'']) \<and>
   map gi_id (projr (fst (list_group inventory None [''eni''] []))) = [''sg-1'', ''sg-2'']"
proof -
  have a: "get_all_security_groups listing_denied [] None = Inl denied"
    by (simp add: listing_denied_def inventory_def)
  have "list_group listing_denied None [''eni''] []
          = (Inl (Fail_json (message denied)), [] @ [Get_all_security_groups None])"
    using facts_are_all_or_nothing
      [where p = listing_denied and l = "[]" and fs = None and e = denied and lookup = "[''eni'']"]
      a by blast
  then have 1: "list_group listing_denied None [''eni''] []
     = (Inl (Fail_json ''You are not authorized to perform this operation.''),
        [Get_all_security_groups None])"
    by (simp add: denied_def)
  have b: "get_all_security_groups interfaces_denied [] None = Inr ([sg1] @ sg2 # [])"
    by (simp add: interfaces_denied_def inventory_def)
  obtain infos where c:
    "group_loop interfaces_denied [''eni''] [sg1] [] ([] @ [Get_all_security_groups None])
       = (Inr infos, [Get_all_security_groups None, Get_all_network_interfaces ''sg-1''])"
    by (simp add: get_group_info_def requested_def and_then_def get_network_interfaces_def
        interfaces_denied_def inventory_def sg1_def)
  have d: "get_group_info interfaces_denied [''eni''] sg2
             [Get_all_security_groups None, Get_all_network_interfaces ''sg-1'']
       = (Inl (Fail_json (error_code denied @ '': '' @ error_message denied)),
          [Get_all_security_groups None, Get_all_network_interfaces ''sg-1'',
           Get_all_network_interfaces ''sg-2''])"
    by (simp add: get_group_info_def requested_def and_then_def get_network_interfaces_def
        interfaces_denied_def inventory_def sg2_def)
  have "list_group interfaces_denied None [''eni''] []
       = (Inl (Fail_json (error_code denied @ '': '' @ error_message denied)),
          [Get_all_security_groups None, Get_all_network_interfaces ''sg-1'',
           Get_all_network_interfaces ''sg-2''])"
    using facts_are_all_or_nothing
      [where p = interfaces_denied and l = "[]" and fs = None and lookup = "[''eni'']"
         and pre = "[sg1]" and g = sg2 and post = "[]" and infos = infos
         and ?l1.0 = "[Get_all_security_groups None, Get_all_network_interfaces ''sg-1'']"
         and a = "Fail_json (error_code denied @ '': '' @ error_message denied)"
         and ?l2.0 = "[Get_all_security_groups None, Get_all_network_interfaces ''sg-1'',
           Get_all_network_interfaces ''sg-2'']"]
      b c d by blast
  then have 2: "list_group interfaces_denied None [''eni''] []
     = (Inl (Fail_json ''UnauthorizedOperation: You are not authorized to perform this operation.''),
        [Get_all_security_groups None, Get_all_network_interfaces ''sg-1'',
         Get_all_network_interfaces ''sg-2''])"
    by (simp add: denied_def)
  obtain out where e:
    "list_group inventory None [''eni''] []
       = (Inr out, [Get_all_security_groups None, Get_all_network_interfaces ''sg-1'',
                    Get_all_network_interfaces ''sg-2''])"
    by (simp add: list_group_def get_group_info_def requested_def and_then_def
        get_network_interfaces_def inventory_def sg1_def sg2_def)
  from facts_are_all_or_nothing
      [where p = inventory and l = "[]" and fs = None and lookup = "[''eni'']" and out = out
         and l' = "[Get_all_security_groups None, Get_all_network_interfaces ''sg-1'',
                    Get_all_network_interfaces ''sg-2'']"] e
  obtain all_groups where "get_all_security_groups inventory [] None = Inr all_groups"
    and "map gi_id out = map sg_id all_groups"
    by blast
  then have "map gi_id out = [''sg-1'', ''sg-2'']"
    by (auto simp: inventory_def sg1_def sg2_def)
  then have 3: "map gi_id (projr (fst (list_group inventory None [''eni''] []))) = [''sg-1'', ''sg-2'']"
    by (simp add: e)
  from 1 2 3 show ?thesis by blast
qed

text \<open>
  Claim C1. The three handlers of \<^verbatim>\<open>get_associated_loadbalancers\<close>,
  \<^verbatim>\<open>get_network_interfaces\<close> and \<^verbatim>\<open>get_rds_instances\<close> end the run with the
  provider's code and message, joined by a colon. The other two provider calls
  do not: \<^verbatim>\<open>group.instances()\<close> stands outside any \<^verbatim>\<open>try\<close>, so its error leaves the
  module as an uncaught exception and no structured error is produced; and the
  handler of the group listing passes \<^verbatim>\<open>e.message\<close> alone, without the code. In
  every case the run ends without an association result.
\<close>

theorem provider_error_surfacing:
  "list_group instances_denied None [''ec2''] []
     = (Inl (Uncaught denied), [Get_all_security_groups None, Instances ''sg-1'']) \<and>
   list_group listing_denied None [''ec2''] []
     = (Inl (Fail_json ''You are not authorized to perform this operation.''),
        [Get_all_security_groups None]) \<and>
   list_group databases_denied None [''rds''] []
     = (Inl (Fail_json ''UnauthorizedOperation: You are not authorized to perform this operation.''),
        [Get_all_security_groups None, Get_all_dbinstances])"
proof (intro conjI)
  show "list_group instances_denied None [''ec2''] []
     = (Inl (Uncaught denied), [Get_all_security_groups None, Instances ''sg-1''])"
    by (simp add: list_group_def instances_denied_def inventory_def get_group_info_def
        requested_def and_then_def get_associated_instances_def sg1_def)
  show "list_group listing_denied None [''ec2''] []
     = (Inl (Fail_json ''You are not authorized to perform this operation.''),
        [Get_all_security_groups None])"
    by (simp add: list_group_def listing_denied_def inventory_def denied_def)
  show "list_group databases_denied None [''rds''] []
     = (Inl (Fail_json ''UnauthorizedOperation: You are not authorized to perform this operation.''),
        [Get_all_security_groups None, Get_all_dbinstances])"
    by (simp add: list_group_def databases_denied_def inventory_def get_group_info_def
        requested_def and_then_def get_rds_instances_def denied_def)
qed

section \<open>Properties of the IAM user lookup\<close>

lemma filter_distinct_key:
  "distinct (map f xs) \<Longrightarrow>
     filter (\<lambda>x. f x = k) xs = (case find (\<lambda>x. f x = k) xs of None \<Rightarrow> [] | Some x \<Rightarrow> [x])"
proof (induction xs)
  case Nil
  show ?case by simp
next
  case (Cons x xs)
  show ?case
  proof (cases "f x = k")
    case True
    from Cons.prems have "f x \<notin> f ` set xs" by simp
    with True have "\<forall>y \<in> set xs. f y \<noteq> k" by (metis imageI)
    then have "filter (\<lambda>x. f x = k) xs = []" by (simp add: filter_empty_conv)
    with True show ?thesis by simp
  next
    case False
    with Cons show ?thesis by simp
  qed
qed

lemma main_name_only:
  assumes "n \<noteq> []"
  shows "main snake_user snake_response True conn (Some n) None l =
           ((case list_users conn l
                   \<lparr>arg_UserName = None, arg_MaxItems = Some 1000, arg_PathPrefix = Some ''/''\<rparr> of
               Inl e \<Rightarrow> Iam_fail_json (ce_message e) (Some (snake_response (ce_response e)))
             | Inr listed \<Rightarrow> Exit_json (map snake_user (filter (\<lambda>u. UserName u = n) listed))),
            l @ [List_users
                   \<lparr>arg_UserName = None, arg_MaxItems = Some 1000, arg_PathPrefix = Some ''/''\<rparr>])"
  using assms
  by (simp add: main_def list_iam_users_def list_users_part_def split: sum.split)

text \<open>
  Claim C2, as stated, has a get-by-name call issued first whenever a name is
  given and no path is, and a list call with the path prefix \<^verbatim>\<open>/\<close> issued after it
  in every case. With the name \<^verbatim>\<open>bob\<close> and no path, the only request of the
  module is the list call: \<^verbatim>\<open>path\<close> has the default \<^verbatim>\<open>/\<close>, and the branch of
  \<^verbatim>\<open>get_user\<close> needs a path that is empty. Where \<^verbatim>\<open>list_iam_users\<close> does receive no
  path, a failing \<^verbatim>\<open>get_user\<close> ends the run with no list call, and a successful
  one is followed by a list call whose only argument is \<^verbatim>\<open>UserName\<close>, with no path
  prefix.
\<close>

theorem get_by_name_first_counterexample:
  "snd (main id id True account (Some ''bob'') None [])
     = [List_users \<lparr>arg_UserName = None, arg_MaxItems = Some 1000, arg_PathPrefix = Some ''/''\<rparr>] \<and>
   snd (list_iam_users id id account_without_get (Some ''bob'') None [])
     = [Get_user \<lparr>arg_UserName = Some ''bob'', arg_MaxItems = None, arg_PathPrefix = None\<rparr>] \<and>
   snd (list_iam_users id id account (Some ''bob'') None [])
     = [Get_user \<lparr>arg_UserName = Some ''bob'', arg_MaxItems = None, arg_PathPrefix = None\<rparr>,
        List_users \<lparr>arg_UserName = Some ''bob'', arg_MaxItems = None, arg_PathPrefix = None\<rparr>]"
  by (simp add: main_def list_iam_users_def list_users_part_def Let_def account_def
      account_without_get_def bob_def bobby_def)

text \<open>
  Claim C2, amended. When a non-empty name is given and no path is, \<^verbatim>\<open>path\<close> takes
  its default \<^verbatim>\<open>/\<close> and no get-by-name call is issued: the module makes exactly
  one request, the list call with path prefix \<^verbatim>\<open>/\<close> and \<^verbatim>\<open>MaxItems\<close> 1000. When
  that call succeeds the module returns the listed users whose name is exactly
  the given one; when it fails the module fails with the provider's message and
  response.
\<close>

theorem name_only_lookup_lists_once:
  assumes "name = Some n" and "n \<noteq> []"
  shows "main snake_user snake_response True conn name None l =
           ((case list_users conn l
                   \<lparr>arg_UserName = None, arg_MaxItems = Some 1000, arg_PathPrefix = Some ''/''\<rparr> of
               Inl e \<Rightarrow> Iam_fail_json (ce_message e) (Some (snake_response (ce_response e)))
             | Inr listed \<Rightarrow> Exit_json (map snake_user (filter (\<lambda>u. UserName u = n) listed))),
            l @ [List_users
                   \<lparr>arg_UserName = None, arg_MaxItems = Some 1000, arg_PathPrefix = Some ''/''\<rparr>])"
  using assms by (simp add: main_name_only)

theorem name_only_lookup_lists_once_witness:
  "main id id True account (Some ''bob'') None []
     = (Exit_json [bob],
        [List_users \<lparr>arg_UserName = None, arg_MaxItems = Some 1000, arg_PathPrefix = Some ''/''\<rparr>])"
proof -
  have "Some ''bob'' = Some ''bob''" and "''bob'' \<noteq> []" by simp_all
  from name_only_lookup_lists_once [OF this, of id id account "[]"]
  show ?thesis by (simp add: account_def bob_def bobby_def)
qed

text \<open>
  Claim C3, as stated, speaks of every lookup that is given only a name. The
  module tests the name by its truth value (\<^verbatim>\<open>if name:\<close>), and the empty string is
  false: with the name \<^verbatim>\<open>''\<close> and no path the listing is not filtered, and the
  module returns both listed users, neither of which has the empty name.
\<close>

theorem empty_name_counterexample:
  "list_users account []
     \<lparr>arg_UserName = None, arg_MaxItems = Some 1000, arg_PathPrefix = Some ''/''\<rparr>
     = Inr [bobby, bob] \<and>
   UserName bobby = ''bobby'' \<and> UserName bob = ''bob'' \<and>
   fst (main id id True account (Some []) None []) = Exit_json [bobby, bob]"
  by (simp add: main_def list_iam_users_def list_users_part_def account_def bob_def bobby_def)

text \<open>
  Claim C3, amended. For a lookup with a non-empty name and no path, whenever the
  provider answers the listing of the default path \<^verbatim>\<open>/\<close>, the module returns the
  users of that listing whose name is exactly the given one (each passed through
  \<^verbatim>\<open>camel_dict_to_snake_dict\<close>). The result is the same whatever \<^verbatim>\<open>get_user\<close> would
  answer. When the names of the listing are distinct, it is the single user of
  that name if there is one, and empty otherwise.
\<close>

theorem name_only_result:
  assumes "name = Some n" and "n \<noteq> []"
    and "list_users conn l
           \<lparr>arg_UserName = None, arg_MaxItems = Some 1000, arg_PathPrefix = Some ''/''\<rparr> = Inr listed"
  shows "fst (main snake_user snake_response True conn name None l)
           = Exit_json (map snake_user (filter (\<lambda>u. UserName u = n) listed)) \<and>
         fst (main snake_user snake_response True (conn\<lparr>get_user := other\<rparr>) name None l)
           = fst (main snake_user snake_response True conn name None l) \<and>
         (distinct (map UserName listed) \<longrightarrow>
            filter (\<lambda>u. UserName u = n) listed
              = (case find (\<lambda>u. UserName u = n) listed of None \<Rightarrow> [] | Some u \<Rightarrow> [u]))"
proof (intro conjI impI)
  show "fst (main snake_user snake_response True conn name None l)
           = Exit_json (map snake_user (filter (\<lambda>u. UserName u = n) listed))"
    using assms by (simp add: main_name_only)
  show "fst (main snake_user snake_response True (conn\<lparr>get_user := other\<rparr>) name None l)
           = fst (main snake_user snake_response True conn name None l)"
    using assms(1,2) by (simp add: main_name_only)
next
  assume "distinct (map UserName listed)"
  then show "filter (\<lambda>u. UserName u = n) listed
              = (case find (\<lambda>u. UserName u = n) listed of None \<Rightarrow> [] | Some u \<Rightarrow> [u])"
    by (rule filter_distinct_key)
qed

theorem name_only_result_witness:
  "fst (main id id True account (Some ''bob'') None []) = Exit_json [bob] \<and>
   fst (main id id True account_without_get (Some ''bob'') None []) = Exit_json [bob] \<and>
   fst (main id id True account (Some ''carol'') None []) = Exit_json []"
proof -
  have listing: "list_users account []
           \<lparr>arg_UserName = None, arg_MaxItems = Some 1000, arg_PathPrefix = Some ''/''\<rparr>
           = Inr [bobby, bob]"
    by (simp add: account_def)
  have names: "distinct (map UserName [bobby, bob])"
    by (simp add: bob_def bobby_def)
  have "Some ''bob'' = Some ''bob''" and "''bob'' \<noteq> []" by simp_all
  from name_only_result [OF this listing, of id id "\<lambda>l ps. Inl no_such_entity"] names
  have "fst (main id id True account (Some ''bob'') None []) = Exit_json [bob]"
    and "fst (main id id True account_without_get (Some ''bob'') None []) = Exit_json [bob]"
    by (simp_all add: account_without_get_def bob_def bobby_def)
  moreover
  have "Some ''carol'' = Some ''carol''" and "''carol'' \<noteq> []" by simp_all
  from name_only_result [OF this listing, of id id "\<lambda>l ps. Inl no_such_entity"] names
  have "fst (main id id True account (Some ''carol'') None []) = Exit_json []"
    by (simp add: bob_def bobby_def)
  ultimately show ?thesis by blast
qed

end
